theory Spec2Isabelle
  imports
    Complex_Main
    "HOL-Library.Multiset"
    "HOL-Library.Product_Lexorder"
    "HOL-Library.List_Lexorder"
    "HOL-Library.Char_ord"
begin

section \<open>Data model\<close>

text \<open>
  The program is one linear script (\<^verbatim>\<open>oel.ipynb\<close>) over a single pandas
  DataFrame \<^verbatim>\<open>heart_data\<close>. A cell of the table is a floating-point number, a
  text (the columns in which \<^verbatim>\<open>read_csv\<close> met the marker \<^verbatim>\<open>?\<close> stay text) or
  the null marker \<^verbatim>\<open>np.nan\<close>. Numbers are modelled by exact reals.
\<close>

datatype cell = Num real | Str string | NaN

text \<open>
  A column label is one of the names given to \<^verbatim>\<open>read_csv\<close> (or \<^verbatim>\<open>target\<close>), or the
  label \<^verbatim>\<open>f"{prefix}_{level}"\<close> that \<^verbatim>\<open>get_dummies\<close> builds from a prefix and a
  level of the encoded column.
\<close>

datatype label = Col string | Ind string cell

text \<open>
  A DataFrame is the ordered list of its labelled columns. The row index is left out:
  every frame of the script derives from the one \<^verbatim>\<open>read_csv\<close> result, frames are
  only joined with frames of the same index, and rows are selected by position.
\<close>

type_synonym frame = "(label \<times> cell list) list"

datatype error = KeyError label | TypeError | ValueError

definition labels :: "frame \<Rightarrow> label list" where
  "labels df = map fst df"

definition nrows :: "frame \<Rightarrow> nat" where
  "nrows df = (case df of [] \<Rightarrow> 0 | (l, c) # _ \<Rightarrow> length c)"

definition wf_frame :: "frame \<Rightarrow> bool" where
  "wf_frame df = list_all (\<lambda>(l, c). length c = nrows df) df"

definition row :: "frame \<Rightarrow> nat \<Rightarrow> cell list" where
  "row df i = map (\<lambda>(l, c). c ! i) df"

definition rows_of :: "frame \<Rightarrow> cell list list" where
  "rows_of df = map (row df) [0..<nrows df]"

text \<open>Positional row selection (\<^verbatim>\<open>take\<close> / \<^verbatim>\<open>iloc\<close>); every caller passes
  positions below \<^const>\<open>nrows\<close>.\<close>

definition take_rows :: "nat list \<Rightarrow> frame \<Rightarrow> frame" where
  "take_rows idx df = map (\<lambda>(l, c). (l, map (\<lambda>i. c ! i) idx)) df"

section \<open>Cleaner\<close>

text \<open>
  \<^verbatim>\<open>heart_data = heart_data.replace('?', np.nan)\<close>: every cell equal to the text
  \<^verbatim>\<open>?\<close> becomes the null marker;
  \<^verbatim>\<open>heart_data = heart_data.dropna()\<close>: the rows with a null in any column go.
  The conversion of five columns to float that follows in the script (line 24) is not
  part of this model.
\<close>

definition replace :: "frame \<Rightarrow> cell \<Rightarrow> cell \<Rightarrow> frame" where
  "replace df to_replace v =
     map (\<lambda>(l, c). (l, map (\<lambda>x. if x = to_replace then v else x) c)) df"

definition row_has_na :: "frame \<Rightarrow> nat \<Rightarrow> bool" where
  "row_has_na df i = list_ex (\<lambda>(l, c). c ! i = NaN) df"

definition dropna :: "frame \<Rightarrow> frame" where
  "dropna df = take_rows (filter (\<lambda>i. \<not> row_has_na df i) [0..<nrows df]) df"

definition cleaner :: "frame \<Rightarrow> frame" where
  "cleaner heart_data = dropna (replace heart_data (Str ''?'') NaN)"

text \<open>What the specification calls a missing cell: the null marker or the sentinel.\<close>

definition missing :: "cell \<Rightarrow> bool" where
  "missing x = (x = NaN \<or> x = Str ''?'')"

definition complete_row :: "cell list \<Rightarrow> bool" where
  "complete_row r = list_all (\<lambda>x. \<not> missing x) r"

section \<open>Encoder\<close>

text \<open>
  \<^verbatim>\<open>heart_data['cp']\<close>: a label that is not a column raises \<^verbatim>\<open>KeyError\<close>.
\<close>

definition getitem :: "frame \<Rightarrow> label \<Rightarrow> error + cell list" where
  "getitem df k = (case map_of df k of None \<Rightarrow> Inl (KeyError k) | Some c \<Rightarrow> Inr c)"

text \<open>
  \<^verbatim>\<open>pd.get_dummies(data, prefix=p, drop_first=True)\<close> factorises the column into a
  categorical: its levels are the distinct non-null values in ascending order
  (numbers by value, texts by code point, numbers before texts). There is one indicator
  column per level, labelled \<^verbatim>\<open>f"{p}_{level}"\<close>; with \<^verbatim>\<open>drop_first\<close> the first level
  has none.
\<close>

fun cell_key :: "cell \<Rightarrow> nat \<times> real \<times> string" where
  "cell_key (Num r) = (0, r, [])"
| "cell_key (Str s) = (1, 0, s)"
| "cell_key NaN = (2, 0, [])"

definition levels_of :: "cell list \<Rightarrow> cell list" where
  "levels_of data = sort_key cell_key (remdups (filter (\<lambda>x. x \<noteq> NaN) data))"

text \<open>Strictly ascending in the order of the levels.\<close>

definition ascending :: "cell list \<Rightarrow> bool" where
  "ascending xs = sorted_wrt (\<lambda>a b. cell_key a < cell_key b) xs"

definition indicator :: "bool \<Rightarrow> cell" where
  "indicator b = Num (if b then 1 else 0)"

definition get_dummies :: "cell list \<Rightarrow> string \<Rightarrow> bool \<Rightarrow> frame" where
  "get_dummies data prefix drop_first =
     (let levels = levels_of data;
          dummy_cols = (if drop_first then tl levels else levels)
      in map (\<lambda>level. (Ind prefix level, map (\<lambda>x. indicator (x = level)) data)) dummy_cols)"

text \<open>\<^verbatim>\<open>pd.concat(frames, axis=1)\<close> on frames of one index: the columns side by side.\<close>

definition concat_axis1 :: "frame list \<Rightarrow> frame" where
  "concat_axis1 frames = concat frames"

text \<open>\<^verbatim>\<open>df.drop(ks, axis=1)\<close>: every column with one of the labels goes; a label that
  is not a column raises \<^verbatim>\<open>KeyError\<close>.\<close>

definition drop_labels :: "label list \<Rightarrow> frame \<Rightarrow> error + frame" where
  "drop_labels ks df =
     (case filter (\<lambda>k. k \<notin> set (labels df)) ks of
        [] \<Rightarrow> Inr (filter (\<lambda>(l, c). l \<notin> set ks) df)
      | k # _ \<Rightarrow> Inl (KeyError k))"

text \<open>\<^verbatim>\<open>df[k] = v\<close>: an existing column is overwritten in place, a new one is appended.\<close>

definition setitem :: "frame \<Rightarrow> label \<Rightarrow> cell list \<Rightarrow> frame" where
  "setitem df k v =
     (if k \<in> set (labels df) then map (\<lambda>(l, c). if l = k then (l, v) else (l, c)) df
      else df @ [(k, v)])"

text \<open>
  \<^verbatim>\<open>lambda x: 1 if x > 0 else 0\<close>. Comparing a text with \<^verbatim>\<open>0\<close> raises
  \<^verbatim>\<open>TypeError\<close>; \<^verbatim>\<open>nan > 0\<close> is false.
\<close>

fun positive :: "cell \<Rightarrow> error + cell" where
  "positive (Num x) = Inr (Num (if x > 0 then 1 else 0))"
| "positive (Str s) = Inl TypeError"
| "positive NaN = Inr (Num 0)"

fun apply_cells :: "(cell \<Rightarrow> error + cell) \<Rightarrow> cell list \<Rightarrow> error + cell list" where
  "apply_cells f [] = Inr []"
| "apply_cells f (x # xs) =
     (case f x of
        Inl e \<Rightarrow> Inl e
      | Inr y \<Rightarrow> (case apply_cells f xs of Inl e \<Rightarrow> Inl e | Inr ys \<Rightarrow> Inr (y # ys)))"

text \<open>
  \<^verbatim>\<open>cp = pd.get_dummies(heart_data['cp'], prefix='cp', drop_first=True)\<close> and the same for
  \<^verbatim>\<open>restecg\<close>, \<^verbatim>\<open>slope\<close>, \<^verbatim>\<open>thal\<close>;
  \<^verbatim>\<open>heart_data = pd.concat([heart_data, cp, restecg, slope, thal], axis=1)\<close>;
  \<^verbatim>\<open>heart_data.drop(['cp', 'restecg', 'slope', 'thal'], axis=1, inplace=True)\<close>.
\<close>

definition encode_categoricals :: "frame \<Rightarrow> error + frame" where
  "encode_categoricals heart_data =
     (case getitem heart_data (Col ''cp'') of Inl e \<Rightarrow> Inl e | Inr cp_data \<Rightarrow>
     (case getitem heart_data (Col ''restecg'') of Inl e \<Rightarrow> Inl e | Inr restecg_data \<Rightarrow>
     (case getitem heart_data (Col ''slope'') of Inl e \<Rightarrow> Inl e | Inr slope_data \<Rightarrow>
     (case getitem heart_data (Col ''thal'') of Inl e \<Rightarrow> Inl e | Inr thal_data \<Rightarrow>
        (let cp = get_dummies cp_data ''cp'' True;
             restecg = get_dummies restecg_data ''restecg'' True;
             slope = get_dummies slope_data ''slope'' True;
             thal = get_dummies thal_data ''thal'' True
         in drop_labels [Col ''cp'', Col ''restecg'', Col ''slope'', Col ''thal'']
              (concat_axis1 [heart_data, cp, restecg, slope, thal]))))))"

text \<open>
  \<^verbatim>\<open>heart_data['target'] = heart_data['num'].apply(lambda x: 1 if x > 0 else 0)\<close>;
  \<^verbatim>\<open>heart_data.drop('num', axis=1, inplace=True)\<close>.
\<close>

definition encode_target :: "frame \<Rightarrow> error + frame" where
  "encode_target heart_data =
     (case getitem heart_data (Col ''num'') of Inl e \<Rightarrow> Inl e | Inr num \<Rightarrow>
     (case apply_cells positive num of Inl e \<Rightarrow> Inl e | Inr target \<Rightarrow>
        drop_labels [Col ''num''] (setitem heart_data (Col ''target'') target)))"

definition encoder :: "frame \<Rightarrow> error + frame" where
  "encoder heart_data =
     (case encode_categoricals heart_data of Inl e \<Rightarrow> Inl e | Inr df \<Rightarrow> encode_target df)"

section \<open>Splitter\<close>

text \<open>
  \<^verbatim>\<open>train_test_split(X, y, test_size=0.2, random_state=42)\<close>. The partition sizes are
  \<^verbatim>\<open>n_test = ceil(test_size * n_samples)\<close> and \<^verbatim>\<open>n_train = n_samples - n_test\<close>; an
  empty train set is refused. The product is taken in exact arithmetic; for the share 0.2
  the floating-point product has the same ceiling (0.2 * 300 is 60.0).
\<close>

definition validate_shuffle_split :: "nat \<Rightarrow> real \<Rightarrow> error + nat \<times> nat" where
  "validate_shuffle_split n_samples test_size =
     (if test_size \<le> 0 \<or> test_size \<ge> 1 then Inl ValueError
      else
        let n_test = nat \<lceil>test_size * real n_samples\<rceil>;
            n_train = n_samples - n_test
        in if n_train = 0 then Inl ValueError else Inr (n_train, n_test))"

text \<open>
  The pseudo-random generator is a parameter: \<open>seeded s\<close> is the state of a fresh
  \<^verbatim>\<open>RandomState(s)\<close>, and \<open>permutation g n\<close> is the result of
  \<^verbatim>\<open>rng.permutation(n)\<close> in state \<open>g\<close> together with the state it leaves.
\<close>

record 'g generator =
  seeded :: "nat \<Rightarrow> 'g"
  permutation :: "'g \<Rightarrow> nat \<Rightarrow> nat list \<times> 'g"

text \<open>
  \<^verbatim>\<open>ShuffleSplit\<close>: \<^verbatim>\<open>rng = check_random_state(random_state)\<close> is a fresh generator
  for an integer seed and numpy's global generator (state \<open>g\<close>) for \<^verbatim>\<open>None\<close>;
  \<^verbatim>\<open>ind_test = permutation[:n_test]\<close>,
  \<^verbatim>\<open>ind_train = permutation[n_test:(n_test + n_train)]\<close>.
\<close>

definition shuffle_split ::
  "'g generator \<Rightarrow> 'g \<Rightarrow> nat option \<Rightarrow> nat \<Rightarrow> nat \<Rightarrow> nat \<Rightarrow> (nat list \<times> nat list) \<times> 'g" where
  "shuffle_split G g random_state n_samples n_train n_test =
     (case random_state of
        Some seed \<Rightarrow>
          (let (perm, _) = permutation G (seeded G seed) n_samples
           in ((take n_train (drop n_test perm), take n_test perm), g))
      | None \<Rightarrow>
          (let (perm, g') = permutation G g n_samples
           in ((take n_train (drop n_test perm), take n_test perm), g')))"

definition train_test_split ::
  "'g generator \<Rightarrow> 'g \<Rightarrow> frame \<Rightarrow> cell list \<Rightarrow> real \<Rightarrow> nat option
     \<Rightarrow> (error + frame \<times> frame \<times> cell list \<times> cell list) \<times> 'g" where
  "train_test_split G g X y test_size random_state =
     (if length y \<noteq> nrows X then (Inl ValueError, g)
      else
        case validate_shuffle_split (nrows X) test_size of
          Inl e \<Rightarrow> (Inl e, g)
        | Inr (n_train, n_test) \<Rightarrow>
            (let ((train, test), g') = shuffle_split G g random_state (nrows X) n_train n_test
             in (Inr (take_rows train X, take_rows test X,
                      map (\<lambda>i. y ! i) train, map (\<lambda>i. y ! i) test), g')))"

text \<open>
  \<^verbatim>\<open>X = heart_data.drop('target', axis=1)\<close>; \<^verbatim>\<open>y = heart_data['target']\<close>;
  \<^verbatim>\<open>train_test_split(X, y, test_size=0.2, random_state=42)\<close>.
\<close>

definition splitter ::
  "'g generator \<Rightarrow> 'g \<Rightarrow> frame \<Rightarrow> (error + frame \<times> frame \<times> cell list \<times> cell list) \<times> 'g" where
  "splitter G g heart_data =
     (case drop_labels [Col ''target''] heart_data of Inl e \<Rightarrow> (Inl e, g) | Inr X \<Rightarrow>
     (case getitem heart_data (Col ''target'') of Inl e \<Rightarrow> (Inl e, g) | Inr y \<Rightarrow>
        train_test_split G g X y 0.2 (Some 42)))"

text \<open>The script from the raw table to the split (without the float conversion).\<close>

definition pipeline ::
  "'g generator \<Rightarrow> 'g \<Rightarrow> frame \<Rightarrow> (error + frame \<times> frame \<times> cell list \<times> cell list) \<times> 'g" where
  "pipeline G g raw =
     (case encoder (cleaner raw) of Inl e \<Rightarrow> (Inl e, g) | Inr heart_data \<Rightarrow> splitter G g heart_data)"

section \<open>Scaler\<close>

text \<open>
  \<^verbatim>\<open>StandardScaler()\<close> works on the float array of the feature table, given here by
  its columns. The floating-point routines it calls are parameters, so that what is
  proved does not depend on how they round: \<open>f_mean\<close> and \<open>f_var\<close> are the mean and the
  (population) variance of a column as numpy computes them, \<open>f_sqrt\<close>, \<open>f_sub\<close> and
  \<open>f_div\<close> the square root, the subtraction and the division, \<open>f_zero\<close> and \<open>f_one\<close>
  the numbers 0.0 and 1.0, \<open>f_isinf\<close> the test for an infinite entry, and
  \<open>is_constant_feature var mean n\<close> the test for a near-constant column
  (\<^verbatim>\<open>var <= n * eps * var + (n * mean * eps) ** 2\<close>; false throughout in the releases
  that do not have it).
\<close>

record 'a float_ops =
  f_mean :: "'a list \<Rightarrow> 'a"
  f_var :: "'a list \<Rightarrow> 'a"
  f_sqrt :: "'a \<Rightarrow> 'a"
  f_sub :: "'a \<Rightarrow> 'a \<Rightarrow> 'a"
  f_div :: "'a \<Rightarrow> 'a \<Rightarrow> 'a"
  f_zero :: 'a
  f_one :: 'a
  f_isinf :: "'a \<Rightarrow> bool"
  is_constant_feature :: "'a \<Rightarrow> 'a \<Rightarrow> nat \<Rightarrow> bool"

text \<open>The standard deviation of a column: \<^verbatim>\<open>sqrt(var_)\<close>.\<close>

definition std :: "'a float_ops \<Rightarrow> 'a list \<Rightarrow> 'a" where
  "std F c = f_sqrt F (f_var F c)"

text \<open>
  \<^verbatim>\<open>_handle_zeros_in_scale(sqrt(var_), constant_mask)\<close> puts 1.0 in the place of a scale
  that is 0.0 or that belongs to a near-constant column. (Releases without the mask test
  \<^verbatim>\<open>scale == 0.0\<close>; in those with it the mask holds whenever the variance is 0.0, and
  the scale is 0.0 only then.)
\<close>

definition handle_zeros_in_scale :: "'a float_ops \<Rightarrow> 'a \<Rightarrow> bool \<Rightarrow> 'a" where
  "handle_zeros_in_scale F scale constant_mask =
     (if constant_mask \<or> scale = f_zero F then f_one F else scale)"

text \<open>
  \<^verbatim>\<open>check_array\<close>, the input validation of \<^verbatim>\<open>fit\<close> and \<^verbatim>\<open>transform\<close>: an array with
  no row, with no column or with an infinite entry raises \<^verbatim>\<open>ValueError\<close>.
\<close>

definition check_array :: "'a float_ops \<Rightarrow> 'a list list \<Rightarrow> error + 'a list list" where
  "check_array F X =
     (if X = [] \<or> list_ex (\<lambda>c. c = []) X \<or> list_ex (list_ex (f_isinf F)) X
      then Inl ValueError else Inr X)"

record 'a scaler =
  fitted_mean :: "'a list"
  fitted_var :: "'a list"
  fitted_scale :: "'a list"

text \<open>\<^verbatim>\<open>fit\<close> stores \<^verbatim>\<open>mean_\<close>, \<^verbatim>\<open>var_\<close> and \<^verbatim>\<open>scale_\<close> per column.\<close>

definition fit :: "'a float_ops \<Rightarrow> 'a list list \<Rightarrow> error + 'a scaler" where
  "fit F X =
     (case check_array F X of
        Inl e \<Rightarrow> Inl e
      | Inr X \<Rightarrow>
          Inr \<lparr>fitted_mean = map (f_mean F) X, fitted_var = map (f_var F) X,
               fitted_scale =
                 map (\<lambda>c. handle_zeros_in_scale F (std F c)
                             (is_constant_feature F (f_var F c) (f_mean F c) (length c))) X\<rparr>)"

text \<open>\<^verbatim>\<open>transform\<close> computes \<^verbatim>\<open>(x - mean_) / scale_\<close>; an array with another
  number of columns than the fitted one raises \<^verbatim>\<open>ValueError\<close>.\<close>

definition transform :: "'a float_ops \<Rightarrow> 'a scaler \<Rightarrow> 'a list list \<Rightarrow> error + 'a list list" where
  "transform F sc X =
     (case check_array F X of
        Inl e \<Rightarrow> Inl e
      | Inr X \<Rightarrow>
          if length X \<noteq> length (fitted_mean sc) then Inl ValueError
          else Inr (map (\<lambda>(c, m, s). map (\<lambda>x. f_div F (f_sub F x m) s) c)
                      (zip X (zip (fitted_mean sc) (fitted_scale sc)))))"

text \<open>\<^verbatim>\<open>fit_transform\<close> fits the scaler, which keeps what it has fitted, and transforms
  the same array.\<close>

definition fit_transform :: "'a float_ops \<Rightarrow> 'a list list \<Rightarrow> error + 'a scaler \<times> 'a list list" where
  "fit_transform F X =
     (case fit F X of Inl e \<Rightarrow> Inl e | Inr sc \<Rightarrow>
     (case transform F sc X of Inl e \<Rightarrow> Inl e | Inr X_scaled \<Rightarrow> Inr (sc, X_scaled)))"

text \<open>
  \<^verbatim>\<open>scaler = StandardScaler()\<close>;
  \<^verbatim>\<open>X_train_scaled = scaler.fit_transform(X_train)\<close>;
  \<^verbatim>\<open>X_test_scaled = scaler.transform(X_test)\<close>.
\<close>

definition scaler_stage ::
  "'a float_ops \<Rightarrow> 'a list list \<Rightarrow> 'a list list \<Rightarrow> error + 'a list list \<times> 'a list list" where
  "scaler_stage F X_train X_test =
     (case fit_transform F X_train of Inl e \<Rightarrow> Inl e | Inr (scaler, X_train_scaled) \<Rightarrow>
     (case transform F scaler X_test of Inl e \<Rightarrow> Inl e | Inr X_test_scaled \<Rightarrow>
        Inr (X_train_scaled, X_test_scaled)))"

text \<open>
  One instance of the routines, for the examples: exact arithmetic on the reals, with
  \<^verbatim>\<open>eps\<close> the machine epsilon of a double. On the small whole numbers of the examples
  double arithmetic is exact and has the same results.
\<close>

definition mean :: "real list \<Rightarrow> real" where
  "mean xs = sum_list xs / real (length xs)"

definition var :: "real list \<Rightarrow> real" where
  "var xs = sum_list (map (\<lambda>x. (x - mean xs)\<^sup>2) xs) / real (length xs)"

definition eps :: real where
  "eps = 1 / 2 ^ 52"

definition exact :: "real float_ops" where
  "exact =
     \<lparr>f_mean = mean, f_var = var, f_sqrt = sqrt, f_sub = (\<lambda>a b. a - b), f_div = (\<lambda>a b. a / b),
      f_zero = 0, f_one = 1, f_isinf = (\<lambda>x. False),
      is_constant_feature = (\<lambda>v m n. v \<le> real n * eps * v + (real n * m * eps)\<^sup>2)\<rparr>"

section \<open>Evaluator\<close>

text \<open>\<^verbatim>\<open>accuracy_score(y_test, pred)\<close>: the fraction of rows whose label is predicted.\<close>

definition accuracy_score :: "nat list \<Rightarrow> nat list \<Rightarrow> real" where
  "accuracy_score y_true y_pred =
     real (length (filter (\<lambda>(t, p). t = p) (zip y_true y_pred))) / real (length y_true)"

text \<open>\<^verbatim>\<open>np.argmax\<close>: the position of the first occurrence of the maximum.\<close>

fun argmax_from :: "real list \<Rightarrow> nat \<Rightarrow> nat \<Rightarrow> real \<Rightarrow> nat" where
  "argmax_from [] i best_idx best = best_idx"
| "argmax_from (x # xs) i best_idx best =
     (if x > best then argmax_from xs (Suc i) i x else argmax_from xs (Suc i) best_idx best)"

definition argmax :: "real list \<Rightarrow> error + nat" where
  "argmax xs = (case xs of [] \<Rightarrow> Inl ValueError | x # rest \<Rightarrow> Inr (argmax_from rest 1 0 x))"

definition models :: "string list" where
  "models = [''Logistic Regression'', ''Random Forest'', ''Support Vector Classifier'']"

text \<open>
  \<^verbatim>\<open>accuracies = [lr_acc, rf_acc, svc_acc]\<close>;
  \<^verbatim>\<open>best_model_idx = np.argmax(accuracies)\<close>; \<^verbatim>\<open>best_model = models[best_model_idx]\<close>.
\<close>

definition best_model :: "real \<Rightarrow> real \<Rightarrow> real \<Rightarrow> error + string \<times> real" where
  "best_model lr_acc rf_acc svc_acc =
     (let accuracies = [lr_acc, rf_acc, svc_acc]
      in case argmax accuracies of
           Inl e \<Rightarrow> Inl e
         | Inr best_model_idx \<Rightarrow> Inr (models ! best_model_idx, accuracies ! best_model_idx))"

section \<open>The column order of the specification\<close>

text \<open>
  The specification orders the indicator columns of a source column by the first
  appearance of its distinct values, and leaves one value out. \<open>first_seen\<close> is that
  order, \<open>drop_one\<close> lists the ways to leave one element out, and
  \<open>first_seen_orders\<close> are the label sequences the specification allows for a source
  column.
\<close>

definition first_seen :: "cell list \<Rightarrow> cell list" where
  "first_seen data = rev (remdups (rev data))"

fun drop_one :: "'a list \<Rightarrow> 'a list list" where
  "drop_one [] = []"
| "drop_one (x # xs) = xs # map ((#) x) (drop_one xs)"

definition first_seen_orders :: "string \<Rightarrow> cell list \<Rightarrow> label list list" where
  "first_seen_orders prefix data = map (map (Ind prefix)) (drop_one (first_seen data))"

section \<open>A small cleaned table and its encoding\<close>

definition example_clean :: frame where
  "example_clean =
     [(Col ''age'', [Num 63, Num 67, Num 41]),
      (Col ''cp'', [Num 4, Num 1, Num 3]),
      (Col ''restecg'', [Num 2, Num 0, Num 2]),
      (Col ''slope'', [Num 3, Num 2, Num 1]),
      (Col ''thal'', [Str ''6.0'', Str ''3.0'', Str ''7.0'']),
      (Col ''num'', [Num 0, Num 2, Num 1])]"

definition example_encoded :: frame where
  "example_encoded =
     [(Col ''age'', [Num 63, Num 67, Num 41]),
      (Ind ''cp'' (Num 3), [Num 0, Num 0, Num 1]),
      (Ind ''cp'' (Num 4), [Num 1, Num 0, Num 0]),
      (Ind ''restecg'' (Num 2), [Num 1, Num 0, Num 1]),
      (Ind ''slope'' (Num 2), [Num 0, Num 1, Num 0]),
      (Ind ''slope'' (Num 3), [Num 1, Num 0, Num 0]),
      (Ind ''thal'' (Str ''6.0''), [Num 1, Num 0, Num 0]),
      (Ind ''thal'' (Str ''7.0''), [Num 0, Num 0, Num 1]),
      (Col ''target'', [Num 0, Num 1, Num 1])]"

section \<open>Further examples\<close>

text \<open>A raw table with one incomplete row, a generator that reverses, the partitions the
  script makes of the raw table with it, and a table of 300 rows.\<close>

definition example_raw :: frame where
  "example_raw =
     [(Col ''age'', [Num 63, Num 67, Num 41, Num 56]),
      (Col ''cp'', [Num 4, Num 1, Num 3, Num 2]),
      (Col ''restecg'', [Num 2, Num 0, Num 2, Num 0]),
      (Col ''slope'', [Num 3, Num 2, Num 1, Num 1]),
      (Col ''ca'', [Str ''0.0'', Str ''?'', Str ''1.0'', Str ''0.0'']),
      (Col ''thal'', [Str ''6.0'', Str ''3.0'', Str ''7.0'', Str ''3.0'']),
      (Col ''num'', [Num 0, Num 2, Num 1, Num 0])]"

definition reversing :: "nat generator" where
  "reversing = \<lparr>seeded = (\<lambda>s. s), permutation = (\<lambda>g n. (rev [0..<n], Suc g))\<rparr>"

definition example_train :: frame where
  "example_train =
     [(Col ''age'', [Num 41, Num 63]), (Col ''ca'', [Str ''1.0'', Str ''0.0'']),
      (Ind ''cp'' (Num 3), [Num 1, Num 0]), (Ind ''cp'' (Num 4), [Num 0, Num 1]),
      (Ind ''restecg'' (Num 2), [Num 1, Num 1]), (Ind ''slope'' (Num 3), [Num 0, Num 1]),
      (Ind ''thal'' (Str ''6.0''), [Num 0, Num 1]), (Ind ''thal'' (Str ''7.0''), [Num 1, Num 0])]"

definition example_test :: frame where
  "example_test =
     [(Col ''age'', [Num 56]), (Col ''ca'', [Str ''0.0'']),
      (Ind ''cp'' (Num 3), [Num 0]), (Ind ''cp'' (Num 4), [Num 0]),
      (Ind ''restecg'' (Num 2), [Num 0]), (Ind ''slope'' (Num 3), [Num 0]),
      (Ind ''thal'' (Str ''6.0''), [Num 0]), (Ind ''thal'' (Str ''7.0''), [Num 0])]"

definition example_300 :: frame where
  "example_300 = [(Col ''age'', replicate 300 (Num 54)), (Col ''target'', replicate 300 (Num 0))]"

text \<open>A raw table whose \<^verbatim>\<open>num\<close> column holds a marker, so that \<^verbatim>\<open>read_csv\<close> gives it as
  text, and what the cleaner leaves of it.\<close>

definition example_text_num :: frame where
  "example_text_num =
     [(Col ''age'', [Num 63, Num 67, Num 41]),
      (Col ''cp'', [Num 4, Num 1, Num 3]),
      (Col ''restecg'', [Num 2, Num 0, Num 2]),
      (Col ''slope'', [Num 3, Num 2, Num 1]),
      (Col ''thal'', [Str ''6.0'', Str ''3.0'', Str ''7.0'']),
      (Col ''num'', [Str ''0'', Str ''?'', Str ''1''])]"

definition example_text_num_clean :: frame where
  "example_text_num_clean =
     [(Col ''age'', [Num 63, Num 41]),
      (Col ''cp'', [Num 4, Num 3]),
      (Col ''restecg'', [Num 2, Num 2]),
      (Col ''slope'', [Num 3, Num 1]),
      (Col ''thal'', [Str ''6.0'', Str ''7.0'']),
      (Col ''num'', [Str ''0'', Str ''1''])]"

section \<open>Properties of the cleaner\<close>

lemma nrows_replace: "nrows (replace df a b) = nrows df"
  by (cases df) (auto simp: nrows_def replace_def)

lemma wf_frame_replace: "wf_frame df \<Longrightarrow> wf_frame (replace df a b)"
  by (auto simp: wf_frame_def list_all_iff nrows_replace) (auto simp: replace_def)

lemma labels_take_rows: "labels (take_rows idx df) = labels df"
  by (induction df) (auto simp: labels_def take_rows_def)

lemma labels_replace: "labels (replace df a b) = labels df"
  by (induction df) (auto simp: labels_def replace_def)

lemma nrows_take_rows: "df \<noteq> [] \<Longrightarrow> nrows (take_rows idx df) = length idx"
  by (cases df) (auto simp: nrows_def take_rows_def)

lemma row_take_rows: "k < length idx \<Longrightarrow> row (take_rows idx df) k = row df (idx ! k)"
  by (induction df) (auto simp: row_def take_rows_def)

lemma rows_of_take_rows: "df \<noteq> [] \<Longrightarrow> rows_of (take_rows idx df) = map (row df) idx"
proof -
  assume ne: "df \<noteq> []"
  have "rows_of (take_rows idx df) = map (\<lambda>k. row df (idx ! k)) [0..<length idx]"
    by (simp add: rows_of_def nrows_take_rows [OF ne] row_take_rows)
  also have "\<dots> = map (row df) (map (\<lambda>k. idx ! k) [0..<length idx])"
    by simp
  also have "\<dots> = map (row df) idx"
    by (simp only: map_nth)
  finally show ?thesis .
qed

lemma row_has_na_iff: "row_has_na df i \<longleftrightarrow> NaN \<in> set (row df i)"
  by (force simp: row_has_na_def row_def list_ex_iff)

lemma rows_of_dropna:
  "rows_of (dropna df) = filter (\<lambda>r. NaN \<notin> set r) (rows_of df)"
proof (cases "df = []")
  case True
  then show ?thesis
    by (simp add: dropna_def rows_of_def nrows_def take_rows_def)
next
  case False
  have "rows_of (dropna df) = map (row df) (filter (\<lambda>i. \<not> row_has_na df i) [0..<nrows df])"
    unfolding dropna_def by (rule rows_of_take_rows [OF False])
  also have "\<dots> = filter (\<lambda>r. NaN \<notin> set r) (rows_of df)"
    by (simp add: rows_of_def filter_map o_def row_has_na_iff)
  finally show ?thesis .
qed

lemma row_replace:
  assumes "wf_frame df" "i < nrows df"
  shows "row (replace df a b) i = map (\<lambda>x. if x = a then b else x) (row df i)"
  using assms
  by (auto simp: row_def replace_def wf_frame_def list_all_iff)

lemma rows_of_replace:
  "wf_frame df \<Longrightarrow>
   rows_of (replace df a b) = map (map (\<lambda>x. if x = a then b else x)) (rows_of df)"
  by (simp add: rows_of_def nrows_replace row_replace)

lemma sentinel_row_fixed:
  "NaN \<notin> set (map (\<lambda>x. if x = Str ''?'' then NaN else x) r) \<longleftrightarrow> complete_row r"
  by (auto simp: complete_row_def missing_def list_all_iff)

lemma complete_row_fixed:
  "complete_row r \<Longrightarrow> map (\<lambda>x. if x = Str ''?'' then NaN else x) r = r"
  by (induction r) (auto simp: complete_row_def missing_def)

lemma rows_of_cleaner:
  assumes "wf_frame raw"
  shows "rows_of (cleaner raw) = filter complete_row (rows_of raw)"
proof -
  let ?f = "map (\<lambda>x. if x = Str ''?'' then NaN else x)"
  have eq: "(\<lambda>r. NaN \<notin> set (?f r)) = complete_row"
    by (rule ext) (rule sentinel_row_fixed)
  have "rows_of (cleaner raw) = filter (\<lambda>r. NaN \<notin> set r) (map ?f (rows_of raw))"
    by (simp add: cleaner_def rows_of_dropna rows_of_replace [OF assms])
  also have "\<dots> = map ?f (filter (\<lambda>r. NaN \<notin> set (?f r)) (rows_of raw))"
    by (simp only: filter_map o_def)
  also have "\<dots> = map ?f (filter complete_row (rows_of raw))"
    by (simp only: eq)
  also have "\<dots> = filter complete_row (rows_of raw)"
    by (rule map_idI) (simp add: complete_row_fixed)
  finally show ?thesis .
qed

lemma cleaner_column_complete:
  assumes wf: "wf_frame raw" and col: "(l, c) \<in> set (cleaner raw)" and x: "x \<in> set c"
  shows "\<not> missing x"
proof -
  let ?df = "replace raw (Str ''?'') NaN"
  let ?keep = "filter (\<lambda>i. \<not> row_has_na ?df i) [0..<nrows ?df]"
  from col obtain c0 where c0: "(l, c0) \<in> set ?df" and c: "c = map (\<lambda>i. c0 ! i) ?keep"
    by (auto simp: cleaner_def dropna_def take_rows_def)
  from x c obtain i where i: "i < nrows ?df" "\<not> row_has_na ?df i" and xi: "x = c0 ! i"
    by auto
  from i(2) c0 have nn: "c0 ! i \<noteq> NaN"
    by (auto simp: row_has_na_def list_ex_iff)
  from wf_frame_replace [OF wf, of "Str ''?''" NaN] c0 have len: "length c0 = nrows ?df"
    by (auto simp: wf_frame_def list_all_iff)
  from c0 obtain c1 where c1: "c0 = map (\<lambda>x. if x = Str ''?'' then NaN else x) c1"
    by (auto simp: replace_def)
  with len i(1) have "c0 ! i = (if c1 ! i = Str ''?'' then NaN else c1 ! i)"
    by simp
  with nn have "c0 ! i \<noteq> Str ''?''"
    by (auto split: if_splits)
  with nn xi show ?thesis
    by (simp add: missing_def)
qed

section \<open>Properties of the encoder\<close>

lemma getitem_missing: "k \<notin> set (labels df) \<Longrightarrow> getitem df k = Inl (KeyError k)"
proof -
  assume "k \<notin> set (labels df)"
  then have "map_of df k = None"
    by (simp add: labels_def map_of_eq_None_iff)
  then show ?thesis
    by (simp add: getitem_def)
qed

lemma getitem_Inr: "getitem df k = Inr c \<longleftrightarrow> map_of df k = Some c"
  by (simp add: getitem_def split: option.splits)

lemma drop_labels_Inr:
  "drop_labels ks df = Inr out \<longleftrightarrow>
     set ks \<subseteq> set (labels df) \<and> out = filter (\<lambda>(l, c). l \<notin> set ks) df"
proof (cases "filter (\<lambda>k. k \<notin> set (labels df)) ks")
  case Nil
  then have "set ks \<subseteq> set (labels df)"
    by (auto simp: filter_empty_conv)
  with Nil show ?thesis
    by (auto simp: drop_labels_def)
next
  case (Cons k rest)
  then have "k \<in> set (filter (\<lambda>k. k \<notin> set (labels df)) ks)"
    by simp
  then have "\<not> set ks \<subseteq> set (labels df)"
    by auto
  with Cons show ?thesis
    by (simp add: drop_labels_def)
qed

lemma labels_filter: "labels (filter (\<lambda>(l, c). P l) df) = filter P (labels df)"
  by (induction df) (auto simp: labels_def)

lemma labels_append: "labels (xs @ ys) = labels xs @ labels ys"
  by (simp add: labels_def)

lemma labels_setitem:
  "labels (setitem df k v) = (if k \<in> set (labels df) then labels df else labels df @ [k])"
  by (induction df) (auto simp: setitem_def labels_def)

lemma labels_get_dummies:
  "labels (get_dummies data p True) = map (Ind p) (tl (levels_of data))"
  by (simp add: get_dummies_def labels_def o_def)

lemma map_of_filter_labels:
  "map_of (filter (\<lambda>(l, c). l \<notin> set ks) df) k = (if k \<in> set ks then None else map_of df k)"
  by (induction df) auto

lemma map_of_overwrite:
  "k \<in> fst ` set df \<Longrightarrow>
   map_of (map (\<lambda>(l, c). if l = k then (l, v) else (l, c)) df) k = Some v"
  by (induction df) auto

lemma map_of_setitem_same: "map_of (setitem df k v) k = Some v"
proof (cases "k \<in> set (labels df)")
  case True
  then show ?thesis
    by (simp add: setitem_def labels_def map_of_overwrite)
next
  case False
  then have "map_of df k = None"
    by (simp add: labels_def map_of_eq_None_iff)
  with False show ?thesis
    by (simp add: setitem_def map_add_def)
qed

lemma encode_categoricals_Inr:
  assumes "encode_categoricals df = Inr out"
  shows "\<exists>cp restecg slope thal.
           getitem df (Col ''cp'') = Inr cp \<and> getitem df (Col ''restecg'') = Inr restecg \<and>
           getitem df (Col ''slope'') = Inr slope \<and> getitem df (Col ''thal'') = Inr thal \<and>
           out = filter (\<lambda>(l, c). l \<notin> set [Col ''cp'', Col ''restecg'', Col ''slope'', Col ''thal''])
                   (df @ get_dummies cp ''cp'' True @ get_dummies restecg ''restecg'' True @
                    get_dummies slope ''slope'' True @ get_dummies thal ''thal'' True)"
  using assms
  by (auto simp: encode_categoricals_def concat_axis1_def drop_labels_Inr Let_def
           split: sum.splits)

lemma encode_target_Inr:
  assumes "encode_target df = Inr out"
  shows "\<exists>num target. getitem df (Col ''num'') = Inr num \<and> apply_cells positive num = Inr target \<and>
           out = filter (\<lambda>(l, c). l \<notin> set [Col ''num'']) (setitem df (Col ''target'') target)"
  using assms
  by (auto simp: encode_target_def drop_labels_Inr split: sum.splits)

lemma getitem_present: "k \<in> set (labels df) \<Longrightarrow> \<exists>c. getitem df k = Inr c"
  by (cases "map_of df k") (auto simp: getitem_def labels_def map_of_eq_None_iff)

lemma encoder_Inr:
  "encoder df = Inr out \<longleftrightarrow> (\<exists>mid. encode_categoricals df = Inr mid \<and> encode_target mid = Inr out)"
  by (auto simp: encoder_def split: sum.splits)

lemma inj_cell_key: "inj cell_key"
proof (rule injI)
  fix a b assume "cell_key a = cell_key b"
  then show "a = b"
    by (cases a; cases b) auto
qed

lemma levels_of_ascending: "ascending (levels_of d)"
proof -
  let ?L = "levels_of d"
  have "sorted (map cell_key ?L)"
    by (simp add: levels_of_def)
  moreover have "distinct ?L"
    by (simp add: levels_of_def)
  then have "distinct (map cell_key ?L)"
    by (simp add: distinct_map inj_on_subset [OF inj_cell_key])
  ultimately have "sorted_wrt (<) (map cell_key ?L)"
    by (simp add: strict_sorted_iff)
  then show ?thesis
    by (simp add: ascending_def sorted_wrt_map)
qed

lemma set_levels_of: "set (levels_of d) = set d - {NaN}"
  by (auto simp: levels_of_def)

lemma labels_encode_categoricals:
  assumes "encode_categoricals df = Inr mid"
  shows "\<exists>cp restecg slope thal.
           getitem df (Col ''cp'') = Inr cp \<and> getitem df (Col ''restecg'') = Inr restecg \<and>
           getitem df (Col ''slope'') = Inr slope \<and> getitem df (Col ''thal'') = Inr thal \<and>
           labels mid =
             filter (\<lambda>l. l \<notin> set [Col ''cp'', Col ''restecg'', Col ''slope'', Col ''thal'']) (labels df)
             @ map (Ind ''cp'') (tl (levels_of cp)) @ map (Ind ''restecg'') (tl (levels_of restecg))
             @ map (Ind ''slope'') (tl (levels_of slope)) @ map (Ind ''thal'') (tl (levels_of thal))"
proof -
  from encode_categoricals_Inr [OF assms] obtain cp restecg slope thal where
    g: "getitem df (Col ''cp'') = Inr cp" "getitem df (Col ''restecg'') = Inr restecg"
       "getitem df (Col ''slope'') = Inr slope" "getitem df (Col ''thal'') = Inr thal"
    and mid: "mid = filter (\<lambda>(l, c). l \<notin> set [Col ''cp'', Col ''restecg'', Col ''slope'', Col ''thal''])
                   (df @ get_dummies cp ''cp'' True @ get_dummies restecg ''restecg'' True @
                    get_dummies slope ''slope'' True @ get_dummies thal ''thal'' True)"
    by blast
  have keep: "filter (\<lambda>l. l \<notin> set [Col ''cp'', Col ''restecg'', Col ''slope'', Col ''thal''])
                (map (Ind p) ls) = map (Ind p) ls" for p ls
    by (induction ls) auto
  have "labels mid =
          filter (\<lambda>l. l \<notin> set [Col ''cp'', Col ''restecg'', Col ''slope'', Col ''thal''])
            (labels df @ map (Ind ''cp'') (tl (levels_of cp)) @ map (Ind ''restecg'') (tl (levels_of restecg))
             @ map (Ind ''slope'') (tl (levels_of slope)) @ map (Ind ''thal'') (tl (levels_of thal)))"
    unfolding mid labels_filter by (simp only: labels_append labels_get_dummies)
  also have "\<dots> =
          filter (\<lambda>l. l \<notin> set [Col ''cp'', Col ''restecg'', Col ''slope'', Col ''thal'']) (labels df)
             @ map (Ind ''cp'') (tl (levels_of cp)) @ map (Ind ''restecg'') (tl (levels_of restecg))
             @ map (Ind ''slope'') (tl (levels_of slope)) @ map (Ind ''thal'') (tl (levels_of thal))"
    by (simp only: filter_append keep)
  finally show ?thesis
    using g by blast
qed

lemma labels_encode_target:
  assumes "encode_target mid = Inr out"
  shows "labels out =
           filter (\<lambda>l. l \<noteq> Col ''num'')
             (if Col ''target'' \<in> set (labels mid) then labels mid else labels mid @ [Col ''target''])"
proof -
  from encode_target_Inr [OF assms] obtain target where
    out: "out = filter (\<lambda>(l, c). l \<notin> set [Col ''num'']) (setitem mid (Col ''target'') target)"
    by blast
  show ?thesis
    unfolding out labels_filter by (simp add: labels_setitem)
qed

lemma encoder_output_no_cp:
  assumes "encoder df = Inr out"
  shows "Col ''cp'' \<notin> set (labels out)"
proof -
  from assms obtain mid where
    mid: "encode_categoricals df = Inr mid" and out: "encode_target mid = Inr out"
    by (auto simp: encoder_Inr)
  from labels_encode_categoricals [OF mid] have "Col ''cp'' \<notin> set (labels mid)"
    by auto
  with labels_encode_target [OF out] show ?thesis
    by (auto split: if_splits)
qed

lemma apply_cells_positive_Num:
  "apply_cells positive (map Num severity) = Inr (map (\<lambda>s. Num (if s > 0 then 1 else 0)) severity)"
  by (induction severity) auto

lemma map_of_append_left: "map_of xs k = Some v \<Longrightarrow> map_of (xs @ ys) k = Some v"
  by (simp add: map_add_Some_iff)

lemma encode_categoricals_total:
  assumes "set [Col ''cp'', Col ''restecg'', Col ''slope'', Col ''thal''] \<subseteq> set (labels df)"
  shows "\<exists>mid. encode_categoricals df = Inr mid"
proof -
  from assms have "Col ''cp'' \<in> set (labels df)" "Col ''restecg'' \<in> set (labels df)"
    "Col ''slope'' \<in> set (labels df)" "Col ''thal'' \<in> set (labels df)"
    by simp_all
  then obtain cp restecg slope thal where
    g: "getitem df (Col ''cp'') = Inr cp" "getitem df (Col ''restecg'') = Inr restecg"
       "getitem df (Col ''slope'') = Inr slope" "getitem df (Col ''thal'') = Inr thal"
    by (blast dest: getitem_present)
  let ?all = "concat_axis1 [df, get_dummies cp ''cp'' True, get_dummies restecg ''restecg'' True,
                get_dummies slope ''slope'' True, get_dummies thal ''thal'' True]"
  have "set [Col ''cp'', Col ''restecg'', Col ''slope'', Col ''thal''] \<subseteq> set (labels ?all)"
    using assms by (auto simp: concat_axis1_def labels_append)
  then have "\<exists>mid. drop_labels [Col ''cp'', Col ''restecg'', Col ''slope'', Col ''thal''] ?all = Inr mid"
    by (simp only: drop_labels_Inr) blast
  with g show ?thesis
    by (simp add: encode_categoricals_def Let_def)
qed

lemma getitem_encode_categoricals:
  assumes mid: "encode_categoricals df = Inr mid" and num: "getitem df (Col ''num'') = Inr num"
  shows "getitem mid (Col ''num'') = Inr num"
proof -
  from encode_categoricals_Inr [OF mid] obtain rest where
    "mid = filter (\<lambda>(l, c). l \<notin> set [Col ''cp'', Col ''restecg'', Col ''slope'', Col ''thal''])
             (df @ rest)"
    by blast
  moreover from num have "map_of (df @ rest) (Col ''num'') = Some num"
    by (simp add: getitem_Inr map_of_append_left)
  ultimately show ?thesis
    by (simp only: getitem_Inr map_of_filter_labels) simp
qed

lemma encoder_example: "encoder example_clean = Inr example_encoded"
  by (simp add: example_clean_def example_encoded_def encoder_def encode_categoricals_def
       encode_target_def getitem_def get_dummies_def levels_of_def indicator_def
       concat_axis1_def drop_labels_def labels_def setitem_def)

section \<open>Properties of the evaluator\<close>

lemma best_model_cases:
  "best_model lr_acc rf_acc svc_acc =
     Inr (if rf_acc \<le> lr_acc \<and> svc_acc \<le> lr_acc then (''Logistic Regression'', lr_acc)
          else if svc_acc \<le> rf_acc then (''Random Forest'', rf_acc)
          else (''Support Vector Classifier'', svc_acc))"
  by (auto simp: best_model_def argmax_def models_def)

section \<open>Properties of the splitter\<close>

lemma validate_300: "validate_shuffle_split 300 (2 / 10) = Inr (240, 60)"
  by (simp add: validate_shuffle_split_def)

lemma shuffle_split_seeded:
  "shuffle_split G g (Some seed) n n_train n_test =
     ((take n_train (drop n_test (fst (permutation G (seeded G seed) n))),
       take n_test (fst (permutation G (seeded G seed) n))), g)"
  by (simp add: shuffle_split_def split: prod.splits)

lemma train_test_split_seeded:
  "train_test_split G g X y test_size (Some seed) =
     (fst (train_test_split G g' X y test_size (Some seed)), g)"
  by (simp add: train_test_split_def shuffle_split_seeded split: sum.splits prod.splits)

lemma train_test_split_labels:
  assumes "fst (train_test_split G g X y test_size random_state) = Inr (X_train, X_test, y_train, y_test)"
  shows "labels X_train = labels X \<and> labels X_test = labels X"
  using assms
  by (auto simp: train_test_split_def labels_take_rows split: if_splits sum.splits prod.splits)

lemma pipeline_example:
  "pipeline reversing 7 example_raw = (Inr (example_train, example_test, [Num 1, Num 0], [Num 0]), 7)"
  by code_simp

lemma nrows_filter:
  assumes "wf_frame df" and "filter P df \<noteq> []"
  shows "nrows (filter P df) = nrows df"
proof -
  from assms(2) obtain l c rest where eq: "filter P df = (l, c) # rest"
    by (cases "filter P df") auto
  then have "(l, c) \<in> set (filter P df)"
    by simp
  then have "(l, c) \<in> set df"
    by simp
  with assms(1) have "length c = nrows df"
    by (auto simp: wf_frame_def list_all_iff)
  with eq show ?thesis
    by (simp add: nrows_def)
qed

lemma perm_split:
  assumes "mset p = mset [0..<n]" and "n_test \<le> n"
  shows "length (take n_test p) = n_test"
    and "length (take (n - n_test) (drop n_test p)) = n - n_test"
    and "set (take (n - n_test) (drop n_test p)) \<inter> set (take n_test p) = {}"
    and "set (take (n - n_test) (drop n_test p)) \<union> set (take n_test p) = {0..<n}"
    and "distinct (take (n - n_test) (drop n_test p))" and "distinct (take n_test p)"
proof -
  from assms(1) have len: "length p = n"
    by (metis length_upt mset_eq_length minus_nat.diff_0)
  from assms(1) have dist: "distinct p"
    by (metis distinct_upt mset_eq_imp_distinct_iff)
  from assms(1) have setp: "set p = {0..<n}"
    by (metis mset_eq_setD set_upt)
  have tr: "take (n - n_test) (drop n_test p) = drop n_test p"
    using len by simp
  have app: "take n_test p @ drop n_test p = p"
    by simp
  show "length (take n_test p) = n_test"
    using len assms(2) by simp
  show "length (take (n - n_test) (drop n_test p)) = n - n_test"
    using len by simp
  from dist have d: "distinct (take n_test p) \<and> distinct (drop n_test p)
      \<and> set (take n_test p) \<inter> set (drop n_test p) = {}"
    using distinct_append [of "take n_test p" "drop n_test p"]
    by (simp only: append_take_drop_id)
  then show "set (take (n - n_test) (drop n_test p)) \<inter> set (take n_test p) = {}"
    unfolding tr by blast
  from setp app show "set (take (n - n_test) (drop n_test p)) \<union> set (take n_test p) = {0..<n}"
    unfolding tr by (metis set_append sup_commute)
  from d show "distinct (take (n - n_test) (drop n_test p))" "distinct (take n_test p)"
    unfolding tr by simp_all
qed

section \<open>Properties of the scaler\<close>

lemma check_array_Inr:
  "check_array F X = Inr Y \<longleftrightarrow>
     Y = X \<and> X \<noteq> [] \<and> \<not> list_ex (\<lambda>c. c = []) X \<and> \<not> list_ex (list_ex (f_isinf F)) X"
  by (auto simp: check_array_def)

lemma fit_Inr:
  assumes "check_array F X = Inr X"
  shows "fit F X = Inr \<lparr>fitted_mean = map (f_mean F) X, fitted_var = map (f_var F) X,
                        fitted_scale =
                          map (\<lambda>c. handle_zeros_in_scale F (std F c)
                                      (is_constant_feature F (f_var F c) (f_mean F c) (length c))) X\<rparr>"
  using assms by (simp add: fit_def)

lemma zip_fitted:
  assumes "length Z = length X"
  shows "map (\<lambda>(c, m, s). map (\<lambda>x. f_div F (f_sub F x m) s) c) (zip Z (zip (map g X) (map h X))) =
         map (\<lambda>(z, c). map (\<lambda>x. f_div F (f_sub F x (g c)) (h c)) z) (zip Z X)"
  using assms
proof (induction Z X rule: list_induct2)
  case Nil
  then show ?case by simp
next
  case (Cons z Z c X)
  then show ?case by simp
qed

lemma transform_Inr:
  assumes "check_array F Z = Inr Z" and "length Z = length X"
  shows "transform F \<lparr>fitted_mean = map g X, fitted_var = V, fitted_scale = map h X\<rparr> Z =
         Inr (map (\<lambda>(z, c). map (\<lambda>x. f_div F (f_sub F x (g c)) (h c)) z) (zip Z X))"
  using assms by (simp add: transform_def zip_fitted)

lemma exact_std_example: "std exact [1, 1, 1] = 0" "std exact [1, 1] = 0" "std exact [1, 3] = 1"
  by (simp_all add: std_def exact_def var_def mean_def power2_eq_square)

section \<open>The claims\<close>

subsection \<open>C1\<close>

text \<open>
  Claim C1, as the code has it. A feature column whose standard deviation on the train
  partition is zero does not make the scaler fail: whenever the train and the test array
  pass the input validation and have the same number of columns, the scaler stage returns
  the scaled arrays, and for such a column the scale 1.0 has been put in the place of the
  zero standard deviation, so that its values are \<open>(x - mean) / 1.0\<close> in both arrays.
\<close>

theorem scaler_zero_std_scale_one:
  assumes tr: "check_array F X_train = Inr X_train"
    and te: "check_array F X_test = Inr X_test"
    and cols: "length X_test = length X_train"
  shows "\<exists>X_train_scaled X_test_scaled.
           scaler_stage F X_train X_test = Inr (X_train_scaled, X_test_scaled)
         \<and> length X_train_scaled = length X_train \<and> length X_test_scaled = length X_test
         \<and> (\<forall>j < length X_train. std F (X_train ! j) = f_zero F \<longrightarrow>
               X_train_scaled ! j =
                 map (\<lambda>x. f_div F (f_sub F x (f_mean F (X_train ! j))) (f_one F)) (X_train ! j)
             \<and> X_test_scaled ! j =
                 map (\<lambda>x. f_div F (f_sub F x (f_mean F (X_train ! j))) (f_one F)) (X_test ! j))"
proof -
  define h where "h = (\<lambda>c. handle_zeros_in_scale F (std F c)
                          (is_constant_feature F (f_var F c) (f_mean F c) (length c)))"
  define f where "f = (\<lambda>(z, c). map (\<lambda>x. f_div F (f_sub F x (f_mean F c)) (h c)) z)"
  define Ztr where "Ztr = map f (zip X_train X_train)"
  define Zte where "Zte = map f (zip X_test X_train)"
  have fitted: "fit F X_train = Inr \<lparr>fitted_mean = map (f_mean F) X_train,
      fitted_var = map (f_var F) X_train, fitted_scale = map h X_train\<rparr>"
    unfolding h_def by (rule fit_Inr [OF tr])
  have stage: "scaler_stage F X_train X_test = Inr (Ztr, Zte)"
    by (simp add: scaler_stage_def fit_transform_def fitted transform_Inr [OF tr refl]
         transform_Inr [OF te cols] Ztr_def Zte_def f_def)
  have len: "length Ztr = length X_train" "length Zte = length X_test"
    by (simp_all add: Ztr_def Zte_def cols)
  have zero: "Ztr ! j = map (\<lambda>x. f_div F (f_sub F x (f_mean F (X_train ! j))) (f_one F)) (X_train ! j)
            \<and> Zte ! j = map (\<lambda>x. f_div F (f_sub F x (f_mean F (X_train ! j))) (f_one F)) (X_test ! j)"
    if j: "j < length X_train" and s: "std F (X_train ! j) = f_zero F" for j
  proof -
    from s have one: "h (X_train ! j) = f_one F"
      by (simp add: h_def handle_zeros_in_scale_def)
    from j cols show ?thesis
      by (simp add: Ztr_def Zte_def f_def one)
  qed
  from stage len zero show ?thesis
    by blast
qed

theorem scaler_zero_std_scale_one_witness:
  "check_array exact [[1, 1], [1, 3]] = Inr [[1, 1], [1, 3]]
   \<and> check_array exact [[0], [5]] = Inr [[0], [5]]
   \<and> std exact [1, 1] = 0
   \<and> scaler_stage exact [[1, 1], [1, 3]] [[0], [5]] = Inr ([[0, 0], [- 1, 1]], [[- 1], [3]])"
proof -
  have tr: "check_array exact [[1, 1], [1, 3]] = Inr [[1, 1], [1, 3]]"
    and te: "check_array exact [[0], [5]] = Inr [[0], [5]]"
    by (simp_all add: check_array_def exact_def)
  have cols: "length [[0], [5 :: real]] = length [[1, 1], [1, 3 :: real]]"
    by simp
  from scaler_zero_std_scale_one [OF tr te cols] obtain Ztr Zte where
    st: "scaler_stage exact [[1, 1], [1, 3]] [[0], [5]] = Inr (Ztr, Zte)"
    and z: "\<forall>j < length [[1, 1], [1, 3 :: real]]. std exact ([[1, 1], [1, 3]] ! j) = f_zero exact \<longrightarrow>
               Ztr ! j = map (\<lambda>x. f_div exact (f_sub exact x (f_mean exact ([[1, 1], [1, 3]] ! j)))
                                  (f_one exact)) ([[1, 1], [1, 3]] ! j)
             \<and> Zte ! j = map (\<lambda>x. f_div exact (f_sub exact x (f_mean exact ([[1, 1], [1, 3]] ! j)))
                                  (f_one exact)) ([[0], [5]] ! j)"
    by blast
  have stage: "scaler_stage exact [[1, 1], [1, 3]] [[0], [5]] = Inr ([[0, 0], [- 1, 1]], [[- 1], [3]])"
    by (simp add: scaler_stage_def fit_transform_def fit_def transform_def check_array_def
         handle_zeros_in_scale_def exact_std_example)
       (simp add: exact_def mean_def var_def eps_def power2_eq_square)
  from tr te st z stage show ?thesis
    by (simp add: exact_std_example)
qed

text \<open>
  Claim C1 as stated fails: the only train column is constant, its standard deviation is
  zero, and both \<^verbatim>\<open>fit_transform\<close> and the whole scaler stage return arrays.
\<close>

theorem scaler_zero_std_counterexample:
  "std exact [1, 1, 1] = 0
   \<and> map_sum id snd (fit_transform exact [[1, 1, 1]]) = Inr [[0, 0, 0]]
   \<and> scaler_stage exact [[1, 1, 1]] [[0]] = Inr ([[0, 0, 0]], [[- 1]])"
  by (simp add: scaler_stage_def fit_transform_def fit_def transform_def check_array_def
       handle_zeros_in_scale_def exact_std_example)
     (simp add: exact_def mean_def)

subsection \<open>C3\<close>

text \<open>
  Claim C3, as the code has it. The encoder's output has the columns of the input that are
  neither categorical sources nor \<^verbatim>\<open>num\<close>, in their order, then the indicator columns
  of \<^verbatim>\<open>cp\<close>, \<^verbatim>\<open>restecg\<close>, \<^verbatim>\<open>slope\<close> and \<^verbatim>\<open>thal\<close>, group by group, then \<^verbatim>\<open>target\<close>.
  Within a group the indicators follow the strictly ascending order of the source column's
  distinct values (not the order of first appearance), and the least value has no
  indicator.
\<close>

theorem encoder_column_order:
  assumes enc: "encoder df = Inr out" and fresh: "Col ''target'' \<notin> set (labels df)"
  shows "\<exists>cp restecg slope thal.
           getitem df (Col ''cp'') = Inr cp \<and> getitem df (Col ''restecg'') = Inr restecg \<and>
           getitem df (Col ''slope'') = Inr slope \<and> getitem df (Col ''thal'') = Inr thal \<and>
           labels out =
             filter (\<lambda>l. l \<notin> set [Col ''cp'', Col ''restecg'', Col ''slope'', Col ''thal'', Col ''num''])
               (labels df)
             @ map (Ind ''cp'') (tl (levels_of cp)) @ map (Ind ''restecg'') (tl (levels_of restecg))
             @ map (Ind ''slope'') (tl (levels_of slope)) @ map (Ind ''thal'') (tl (levels_of thal))
             @ [Col ''target''] \<and>
           list_all (\<lambda>d. ascending (levels_of d) \<and> set (levels_of d) = set d - {NaN})
             [cp, restecg, slope, thal]"
proof -
  from enc obtain mid where
    mid: "encode_categoricals df = Inr mid" and out: "encode_target mid = Inr out"
    by (auto simp: encoder_Inr)
  from labels_encode_categoricals [OF mid] obtain cp restecg slope thal where
    g: "getitem df (Col ''cp'') = Inr cp" "getitem df (Col ''restecg'') = Inr restecg"
       "getitem df (Col ''slope'') = Inr slope" "getitem df (Col ''thal'') = Inr thal"
    and lm: "labels mid =
             filter (\<lambda>l. l \<notin> set [Col ''cp'', Col ''restecg'', Col ''slope'', Col ''thal'']) (labels df)
             @ map (Ind ''cp'') (tl (levels_of cp)) @ map (Ind ''restecg'') (tl (levels_of restecg))
             @ map (Ind ''slope'') (tl (levels_of slope)) @ map (Ind ''thal'') (tl (levels_of thal))"
    by blast
  from lm fresh have nt: "Col ''target'' \<notin> set (labels mid)"
    by auto
  have keep: "filter (\<lambda>l. l \<noteq> Col ''num'') (map (Ind p) ls) = map (Ind p) ls" for p ls
    by (induction ls) auto
  have both: "filter (\<lambda>l. l \<noteq> Col ''num'')
                (filter (\<lambda>l. l \<notin> set [Col ''cp'', Col ''restecg'', Col ''slope'', Col ''thal'']) ls) =
              filter (\<lambda>l. l \<notin> set [Col ''cp'', Col ''restecg'', Col ''slope'', Col ''thal'', Col ''num''])
                ls" for ls
    by (induction ls) auto
  have "labels out = filter (\<lambda>l. l \<noteq> Col ''num'') (labels mid @ [Col ''target''])"
    using labels_encode_target [OF out] nt by simp
  also have "\<dots> =
      filter (\<lambda>l. l \<notin> set [Col ''cp'', Col ''restecg'', Col ''slope'', Col ''thal'', Col ''num''])
               (labels df)
             @ map (Ind ''cp'') (tl (levels_of cp)) @ map (Ind ''restecg'') (tl (levels_of restecg))
             @ map (Ind ''slope'') (tl (levels_of slope)) @ map (Ind ''thal'') (tl (levels_of thal))
             @ [Col ''target'']"
    unfolding lm by (simp only: filter_append keep both) simp
  finally have "labels out = \<dots>" .
  with g show ?thesis
    by (simp add: levels_of_ascending set_levels_of)
qed

theorem encoder_column_order_witness:
  "encoder example_clean = Inr example_encoded
   \<and> Col ''target'' \<notin> set (labels example_clean)
   \<and> labels example_encoded =
       [Col ''age'', Ind ''cp'' (Num 3), Ind ''cp'' (Num 4), Ind ''restecg'' (Num 2),
        Ind ''slope'' (Num 2), Ind ''slope'' (Num 3), Ind ''thal'' (Str ''6.0''),
        Ind ''thal'' (Str ''7.0''), Col ''target'']"
proof -
  have fresh: "Col ''target'' \<notin> set (labels example_clean)"
    by (simp add: example_clean_def labels_def)
  show ?thesis
    using encoder_column_order [OF encoder_example fresh] fresh encoder_example
    by (simp add: example_encoded_def labels_def)
qed

text \<open>
  Claim C3 as stated fails: in the example \<^verbatim>\<open>cp\<close> holds 4, 1, 3 in this order, and the
  indicator columns of the output are \<^verbatim>\<open>cp_3\<close>, \<^verbatim>\<open>cp_4\<close>, which is none of the
  sequences that follow the order of first appearance with one value left out.
\<close>

theorem encoder_column_order_counterexample:
  "getitem example_clean (Col ''cp'') = Inr [Num 4, Num 1, Num 3]
   \<and> encoder example_clean = Inr example_encoded
   \<and> labels example_encoded =
       [Col ''age'', Ind ''cp'' (Num 3), Ind ''cp'' (Num 4), Ind ''restecg'' (Num 2),
        Ind ''slope'' (Num 2), Ind ''slope'' (Num 3), Ind ''thal'' (Str ''6.0''),
        Ind ''thal'' (Str ''7.0''), Col ''target'']
   \<and> first_seen [Num 4, Num 1, Num 3] = [Num 4, Num 1, Num 3]
   \<and> [Ind ''cp'' (Num 3), Ind ''cp'' (Num 4)] \<notin> set (first_seen_orders ''cp'' [Num 4, Num 1, Num 3])"
  by (simp add: encoder_example first_seen_def first_seen_orders_def)
     (simp add: example_clean_def example_encoded_def getitem_def labels_def)

subsection \<open>C4\<close>

text \<open>
  Claim C4. For every raw table, the output of the cleaner has no null and no \<^verbatim>\<open>?\<close>
  marker in any column; its rows are exactly the rows of the input that hold neither, in
  the input's order and with their values unchanged (nothing is imputed), under the same
  column labels.
\<close>

theorem cleaner_output_complete:
  assumes "wf_frame raw"
  shows "(\<forall>(l, c) \<in> set (cleaner raw). NaN \<notin> set c \<and> Str ''?'' \<notin> set c)
       \<and> labels (cleaner raw) = labels raw
       \<and> rows_of (cleaner raw) = filter complete_row (rows_of raw)"
proof (intro conjI)
  show "\<forall>(l, c) \<in> set (cleaner raw). NaN \<notin> set c \<and> Str ''?'' \<notin> set c"
    using cleaner_column_complete [OF assms] by (fastforce simp: missing_def)
  show "labels (cleaner raw) = labels raw"
    by (simp add: cleaner_def dropna_def labels_take_rows labels_replace)
  show "rows_of (cleaner raw) = filter complete_row (rows_of raw)"
    by (rule rows_of_cleaner [OF assms])
qed

theorem cleaner_output_complete_witness:
  "wf_frame [(Col ''age'', [Num 63, Num 67, Num 41]), (Col ''ca'', [Str ''0.0'', Str ''?'', NaN])]
   \<and> rows_of (cleaner [(Col ''age'', [Num 63, Num 67, Num 41]),
                         (Col ''ca'', [Str ''0.0'', Str ''?'', NaN])])
       = [[Num 63, Str ''0.0'']]
   \<and> labels (cleaner [(Col ''age'', [Num 63, Num 67, Num 41]),
                        (Col ''ca'', [Str ''0.0'', Str ''?'', NaN])])
       = [Col ''age'', Col ''ca'']"
proof -
  let ?raw = "[(Col ''age'', [Num 63, Num 67, Num 41]), (Col ''ca'', [Str ''0.0'', Str ''?'', NaN])]"
  have wf: "wf_frame ?raw"
    by (simp add: wf_frame_def nrows_def)
  have rows: "filter complete_row (rows_of ?raw) = [[Num 63, Str ''0.0'']]"
    by (simp add: rows_of_def nrows_def row_def complete_row_def missing_def upt_rec)
  show ?thesis
    using cleaner_output_complete [OF wf] wf rows by (simp add: labels_def)
qed

subsection \<open>C5\<close>

text \<open>
  Claim C5, as the code has it. When the table has the four categorical columns and its
  \<^verbatim>\<open>num\<close> column holds numbers, the encoder succeeds, the \<^verbatim>\<open>target\<close> column of its
  output holds, row by row, 1 where \<^verbatim>\<open>num\<close> is greater than zero and 0 elsewhere, and
  the output has no \<^verbatim>\<open>num\<close> column.
\<close>

theorem encoder_target:
  assumes cats: "set [Col ''cp'', Col ''restecg'', Col ''slope'', Col ''thal''] \<subseteq> set (labels df)"
    and num: "getitem df (Col ''num'') = Inr (map Num severity)"
  shows "\<exists>out. encoder df = Inr out
           \<and> getitem out (Col ''target'') = Inr (map (\<lambda>s. Num (if s > 0 then 1 else 0)) severity)
           \<and> Col ''num'' \<notin> set (labels out)"
proof -
  let ?target = "map (\<lambda>s. Num (if s > 0 then 1 else 0)) severity"
  from encode_categoricals_total [OF cats] obtain mid where mid: "encode_categoricals df = Inr mid"
    by blast
  have g: "getitem mid (Col ''num'') = Inr (map Num severity)"
    by (rule getitem_encode_categoricals [OF mid num])
  let ?out = "filter (\<lambda>(l, c). l \<notin> set [Col ''num'']) (setitem mid (Col ''target'') ?target)"
  from g have "Col ''num'' \<in> set (labels mid)"
    by (auto simp: getitem_Inr labels_def dest: map_of_SomeD intro: rev_image_eqI)
  then have "set [Col ''num''] \<subseteq> set (labels (setitem mid (Col ''target'') ?target))"
    by (simp add: labels_setitem)
  then have "drop_labels [Col ''num''] (setitem mid (Col ''target'') ?target) = Inr ?out"
    by (simp only: drop_labels_Inr)
  with g have "encode_target mid = Inr ?out"
    by (simp add: encode_target_def apply_cells_positive_Num)
  with mid have "encoder df = Inr ?out"
    by (simp add: encoder_def)
  moreover have "getitem ?out (Col ''target'') = Inr ?target"
    by (simp only: getitem_Inr map_of_filter_labels map_of_setitem_same) simp
  moreover have "Col ''num'' \<notin> set (labels ?out)"
    by (simp add: labels_filter)
  ultimately show ?thesis
    by blast
qed

theorem encoder_target_witness:
  "set [Col ''cp'', Col ''restecg'', Col ''slope'', Col ''thal''] \<subseteq> set (labels example_clean)
   \<and> getitem example_clean (Col ''num'') = Inr (map Num [0, 2, 1])
   \<and> encoder example_clean = Inr example_encoded
   \<and> getitem example_encoded (Col ''target'') = Inr [Num 0, Num 1, Num 1]
   \<and> Col ''num'' \<notin> set (labels example_encoded)"
proof -
  have cats: "set [Col ''cp'', Col ''restecg'', Col ''slope'', Col ''thal''] \<subseteq> set (labels example_clean)"
    by (simp add: example_clean_def labels_def)
  have num: "getitem example_clean (Col ''num'') = Inr (map Num [0, 2, 1])"
    by (simp add: example_clean_def getitem_def)
  show ?thesis
    using encoder_target [OF cats num] cats num encoder_example by simp
qed

text \<open>
  Claim C5 as stated fails: it speaks of every cleaned table, and the cleaned table of the
  example has a \<^verbatim>\<open>num\<close> column of texts (the raw column held a marker), on which the
  comparison with 0 raises \<^verbatim>\<open>TypeError\<close>; there is no output and no \<^verbatim>\<open>target\<close>.
\<close>

theorem encoder_target_counterexample:
  "cleaner example_text_num = example_text_num_clean
   \<and> getitem example_text_num_clean (Col ''num'') = Inr [Str ''0'', Str ''1'']
   \<and> encoder (cleaner example_text_num) = Inl TypeError"
proof -
  have clean: "cleaner example_text_num = example_text_num_clean"
    by (simp add: cleaner_def replace_def dropna_def take_rows_def row_has_na_def nrows_def
         example_text_num_def example_text_num_clean_def upt_rec)
  have "encoder example_text_num_clean = Inl TypeError"
    by (simp add: example_text_num_clean_def encoder_def encode_categoricals_def
         encode_target_def getitem_def get_dummies_def levels_of_def indicator_def
         concat_axis1_def drop_labels_def labels_def setitem_def)
  with clean show ?thesis
    by (simp add: example_text_num_clean_def getitem_def)
qed

subsection \<open>C6\<close>

text \<open>
  Claim C6. The model selected as best is at a position \<open>i\<close> of the fixed order
  (logistic regression, random forest, support-vector classifier) whose accuracy is the
  maximum of the three, and every model before \<open>i\<close> has a strictly smaller accuracy: among
  the models that reach the maximum the earliest is selected. In particular logistic
  regression is selected whenever its accuracy equals the maximum.
\<close>

theorem best_model_first_maximum:
  "\<exists>i<3. best_model lr_acc rf_acc svc_acc = Inr (models ! i, [lr_acc, rf_acc, svc_acc] ! i)
      \<and> [lr_acc, rf_acc, svc_acc] ! i = Max {lr_acc, rf_acc, svc_acc}
      \<and> (\<forall>j<i. [lr_acc, rf_acc, svc_acc] ! j < [lr_acc, rf_acc, svc_acc] ! i)
      \<and> (lr_acc = Max {lr_acc, rf_acc, svc_acc} \<longrightarrow> i = 0)"
proof -
  consider (lr) "rf_acc \<le> lr_acc" "svc_acc \<le> lr_acc"
    | (rf) "lr_acc < rf_acc" "svc_acc \<le> rf_acc"
    | (svc) "lr_acc < svc_acc" "rf_acc < svc_acc"
    by linarith
  then show ?thesis
  proof cases
    case lr
    then have "best_model lr_acc rf_acc svc_acc = Inr (models ! 0, [lr_acc, rf_acc, svc_acc] ! 0)"
      by (simp add: best_model_cases models_def)
    moreover from lr have "[lr_acc, rf_acc, svc_acc] ! 0 = Max {lr_acc, rf_acc, svc_acc}"
      by (simp add: max_def)
    ultimately show ?thesis
      by (intro exI [of _ 0]) simp
  next
    case rf
    then have "best_model lr_acc rf_acc svc_acc = Inr (models ! 1, [lr_acc, rf_acc, svc_acc] ! 1)"
      by (simp add: best_model_cases models_def)
    moreover from rf have "[lr_acc, rf_acc, svc_acc] ! 1 = Max {lr_acc, rf_acc, svc_acc}"
      by (simp add: max_def)
    moreover from rf have "lr_acc \<noteq> Max {lr_acc, rf_acc, svc_acc}"
      by (simp add: max_def)
    ultimately show ?thesis
      using rf by (intro exI [of _ 1]) simp
  next
    case svc
    then have "best_model lr_acc rf_acc svc_acc = Inr (models ! 2, [lr_acc, rf_acc, svc_acc] ! 2)"
      by (simp add: best_model_cases models_def)
    moreover from svc have "[lr_acc, rf_acc, svc_acc] ! 2 = Max {lr_acc, rf_acc, svc_acc}"
      by (simp add: max_def)
    moreover from svc have "lr_acc \<noteq> Max {lr_acc, rf_acc, svc_acc}"
      by (simp add: max_def)
    ultimately show ?thesis
      using svc by (intro exI [of _ 2]) (auto simp: less_Suc_eq numeral_2_eq_2)
  qed
qed

theorem best_model_first_maximum_witness:
  "best_model (8 / 10) (8 / 10) (7 / 10) = Inr (''Logistic Regression'', 8 / 10)
   \<and> best_model (7 / 10) (8 / 10) (8 / 10) = Inr (''Random Forest'', 8 / 10)
   \<and> best_model (7 / 10) (7 / 10) (8 / 10) = Inr (''Support Vector Classifier'', 8 / 10)"
  using best_model_first_maximum [of "8 / 10" "8 / 10" "7 / 10"]
        best_model_first_maximum [of "7 / 10" "8 / 10" "8 / 10"]
        best_model_first_maximum [of "7 / 10" "7 / 10" "8 / 10"]
  by (auto simp: models_def less_Suc_eq numeral_3_eq_3)

subsection \<open>C7\<close>

text \<open>
  Claim C7. The partition does not depend on the state \<open>g\<close> of the ambient generator in
  which a run starts: with the seed 42 every run of the splitter on the same table gives
  the same train rows and the same test rows, and it leaves the ambient generator as it
  was. The same holds of \<^verbatim>\<open>train_test_split\<close> with any fixed seed.
\<close>

theorem splitter_deterministic:
  "fst (splitter G g heart_data) = fst (splitter G g' heart_data)
   \<and> snd (splitter G g heart_data) = g
   \<and> fst (train_test_split G g X y test_size (Some seed)) =
       fst (train_test_split G g' X y test_size (Some seed))"
proof -
  have "splitter G g heart_data = (fst (splitter G g' heart_data), g)"
    unfolding splitter_def
    using train_test_split_seeded [of G g _ _ _ 42 g']
    by (auto split: sum.splits)
  moreover have "fst (train_test_split G g X y test_size (Some seed)) =
       fst (train_test_split G g' X y test_size (Some seed))"
    using train_test_split_seeded [of G g X y test_size seed g'] by simp
  ultimately show ?thesis
    by simp
qed

subsection \<open>C8\<close>

text \<open>
  Claim C8. For an encoded table of exactly 300 rows with at least one feature column, and
  a generator whose permutation of 300 positions is a permutation, the splitter takes 240
  rows for the train partition and 60 for the test partition; the positions of the two
  partitions are free of repetitions, disjoint, and together all 300.
\<close>

theorem splitter_300_rows:
  assumes wf: "wf_frame heart_data" and n: "nrows heart_data = 300"
    and tgt: "Col ''target'' \<in> set (labels heart_data)"
    and feat: "filter (\<lambda>l. l \<noteq> Col ''target'') (labels heart_data) \<noteq> []"
    and perm: "mset (fst (permutation G (seeded G 42) 300)) = mset [0..<300]"
  shows "\<exists>X y train test.
           drop_labels [Col ''target''] heart_data = Inr X
         \<and> getitem heart_data (Col ''target'') = Inr y
         \<and> splitter G g heart_data =
             (Inr (take_rows train X, take_rows test X, map (\<lambda>i. y ! i) train, map (\<lambda>i. y ! i) test), g)
         \<and> length train = 240 \<and> length test = 60
         \<and> distinct train \<and> distinct test
         \<and> set train \<inter> set test = {} \<and> set train \<union> set test = {0..<300}
         \<and> nrows (take_rows train X) = 240 \<and> nrows (take_rows test X) = 60
         \<and> rows_of (take_rows train X) = map (row X) train
         \<and> rows_of (take_rows test X) = map (row X) test"
proof -
  define X where "X = filter (\<lambda>(l, c). l \<notin> set [Col ''target'']) heart_data"
  define p where "p = fst (permutation G (seeded G 42) 300)"
  define train where "train = take 240 (drop 60 p)"
  define test where "test = take 60 p"
  from tgt have X: "drop_labels [Col ''target''] heart_data = Inr X"
    unfolding X_def by (simp only: drop_labels_Inr) simp
  from feat have "labels X \<noteq> []"
    by (simp add: X_def labels_filter)
  then have ne: "X \<noteq> []"
    by (auto simp: labels_def)
  from nrows_filter [OF wf] ne n have nX: "nrows X = 300"
    unfolding X_def by simp
  from getitem_present [OF tgt] obtain y where y: "getitem heart_data (Col ''target'') = Inr y"
    by blast
  then have "(Col ''target'', y) \<in> set heart_data"
    by (simp add: getitem_Inr map_of_SomeD)
  with wf n have ly: "length y = 300"
    by (auto simp: wf_frame_def list_all_iff)
  have sh: "shuffle_split G g (Some 42) 300 240 60 = ((train, test), g)"
    by (simp add: shuffle_split_seeded train_def test_def p_def)
  have "train_test_split G g X y (2 / 10) (Some 42) =
      (Inr (take_rows train X, take_rows test X, map (\<lambda>i. y ! i) train, map (\<lambda>i. y ! i) test), g)"
    unfolding train_test_split_def nX ly validate_300 by (simp add: sh)
  then have split: "splitter G g heart_data =
      (Inr (take_rows train X, take_rows test X, map (\<lambda>i. y ! i) train, map (\<lambda>i. y ! i) test), g)"
    unfolding splitter_def X y by simp
  have sz: "(60::nat) \<le> 300"
    by simp
  from perm have perm': "mset p = mset [0..<300]"
    by (simp add: p_def)
  note ps = perm_split [OF perm' sz]
  have len: "length train = 240" "length test = 60"
    using ps(1,2) by (simp_all add: train_def test_def)
  have dj: "distinct train" "distinct test" "set train \<inter> set test = {}"
    "set train \<union> set test = {0..<300}"
    using ps(3,4,5,6) by (simp_all add: train_def test_def)
  have nr: "nrows (take_rows train X) = 240" "nrows (take_rows test X) = 60"
    using len by (simp_all add: nrows_take_rows [OF ne])
  have ro: "rows_of (take_rows train X) = map (row X) train"
    "rows_of (take_rows test X) = map (row X) test"
    by (rule rows_of_take_rows [OF ne])+
  from X y split len dj nr ro show ?thesis
    by blast
qed

theorem splitter_300_rows_witness:
  "wf_frame example_300 \<and> nrows example_300 = 300
   \<and> mset (fst (permutation reversing (seeded reversing 42) 300)) = mset [0..<300]
   \<and> (case fst (splitter reversing 0 example_300) of
         Inl e \<Rightarrow> False
       | Inr (X_train, X_test, y_train, y_test) \<Rightarrow>
           nrows X_train = 240 \<and> nrows X_test = 60 \<and> length y_train = 240 \<and> length y_test = 60)"
proof -
  have wf: "wf_frame example_300" and n: "nrows example_300 = 300"
    by (simp_all add: example_300_def wf_frame_def nrows_def)
  have tgt: "Col ''target'' \<in> set (labels example_300)"
    and feat: "filter (\<lambda>l. l \<noteq> Col ''target'') (labels example_300) \<noteq> []"
    by (simp_all add: example_300_def labels_def)
  have perm: "mset (fst (permutation reversing (seeded reversing 42) 300)) = mset [0..<300]"
    by (simp add: reversing_def)
  from splitter_300_rows [OF wf n tgt feat perm, of 0] obtain X y train test where
    "splitter reversing 0 example_300 =
       (Inr (take_rows train X, take_rows test X, map (\<lambda>i. y ! i) train, map (\<lambda>i. y ! i) test), 0)"
    "length train = 240" "length test = 60"
    "nrows (take_rows train X) = 240" "nrows (take_rows test X) = 60"
    by blast
  with wf n perm show ?thesis
    by simp
qed

subsection \<open>C9\<close>

text \<open>
  Claim C9, as the code has it. The encoder is not idempotent: its output has no \<^verbatim>\<open>cp\<close>
  column, so encoding it again stops at \<^verbatim>\<open>heart_data['cp']\<close> with a \<^verbatim>\<open>KeyError\<close> and
  returns no table.
\<close>

theorem encoder_twice_KeyError:
  assumes "encoder df = Inr out"
  shows "encoder out = Inl (KeyError (Col ''cp''))"
  using getitem_missing [OF encoder_output_no_cp [OF assms]]
  by (simp add: encoder_def encode_categoricals_def)

theorem encoder_twice_KeyError_witness:
  "encoder [(Col ''cp'', [Num 1]), (Col ''restecg'', [Num 0]), (Col ''slope'', [Num 2]),
            (Col ''thal'', [Str ''3.0'']), (Col ''num'', [Num 0])]
     = Inr [(Col ''target'', [Num 0])]
   \<and> encoder [(Col ''target'', [Num 0])] = Inl (KeyError (Col ''cp''))"
proof -
  have enc: "encoder [(Col ''cp'', [Num 1]), (Col ''restecg'', [Num 0]), (Col ''slope'', [Num 2]),
                      (Col ''thal'', [Str ''3.0'']), (Col ''num'', [Num 0])]
               = Inr [(Col ''target'', [Num 0])]"
    by (simp add: encoder_def encode_categoricals_def encode_target_def getitem_def
         get_dummies_def levels_of_def concat_axis1_def drop_labels_def labels_def setitem_def)
  show ?thesis
    using encoder_twice_KeyError [OF enc] enc by simp
qed

text \<open>
  Claim C9 as stated fails: encoding the encoded example does not return it.
\<close>

theorem encoder_idempotent_counterexample:
  "encoder example_clean = Inr example_encoded
   \<and> encoder example_encoded = Inl (KeyError (Col ''cp''))
   \<and> encoder example_encoded \<noteq> Inr example_encoded"
  by (simp add: encoder_example)
     (simp add: example_encoded_def encoder_def encode_categoricals_def getitem_def)

subsection \<open>C10\<close>

text \<open>
  Claim C10. The indicator columns are made by the encoder from the whole cleaned table,
  before the split, and the split only selects rows: whenever the script gets as far as
  the split, the train features and the test features have the same column labels in the
  same order, namely those of the encoded table without \<^verbatim>\<open>target\<close>.
\<close>

theorem pipeline_same_columns:
  assumes "fst (pipeline G g raw) = Inr (X_train, X_test, y_train, y_test)"
  shows "labels X_train = labels X_test
       \<and> (\<exists>heart_data. encoder (cleaner raw) = Inr heart_data
            \<and> labels X_train = filter (\<lambda>l. l \<noteq> Col ''target'') (labels heart_data))"
proof -
  from assms obtain heart_data where
    enc: "encoder (cleaner raw) = Inr heart_data"
    and sp: "fst (splitter G g heart_data) = Inr (X_train, X_test, y_train, y_test)"
    by (auto simp: pipeline_def split: sum.splits)
  from sp obtain X y where
    X: "drop_labels [Col ''target''] heart_data = Inr X"
    and tts: "fst (train_test_split G g X y (2 / 10) (Some 42)) = Inr (X_train, X_test, y_train, y_test)"
    by (auto simp: splitter_def split: sum.splits)
  from X have "labels X = filter (\<lambda>l. l \<noteq> Col ''target'') (labels heart_data)"
    by (simp add: drop_labels_Inr labels_filter)
  with train_test_split_labels [OF tts] enc show ?thesis
    by simp
qed

theorem pipeline_same_columns_witness:
  "fst (pipeline reversing 7 example_raw) = Inr (example_train, example_test, [Num 1, Num 0], [Num 0])
   \<and> labels example_train = labels example_test
   \<and> labels example_train =
       [Col ''age'', Col ''ca'', Ind ''cp'' (Num 3), Ind ''cp'' (Num 4), Ind ''restecg'' (Num 2),
        Ind ''slope'' (Num 3), Ind ''thal'' (Str ''6.0''), Ind ''thal'' (Str ''7.0'')]"
proof -
  have run: "fst (pipeline reversing 7 example_raw) =
               Inr (example_train, example_test, [Num 1, Num 0], [Num 0])"
    by (simp add: pipeline_example)
  show ?thesis
    using pipeline_same_columns [OF run] run by (simp add: example_train_def labels_def)
qed

end
